theory Spec2Isabelle
  imports Complex_Main "HOL-Library.Word"
begin

unbundle bit_operations_syntax

section \<open>Buffers and JavaScript numbers\<close>

text \<open>
  A Node \<open>Buffer\<close> is a sequence of bytes. Reading an index outside the buffer gives
  \<open>undefined\<close>, which the bitwise operators of JavaScript convert to 0; writing outside
  the buffer is ignored, which is what \<open>list_update\<close> does.

  The bitwise operators of JavaScript work on the operands converted to 32-bit signed
  integers (\<open>ToInt32\<close>): a length is converted with \<open>word_of_nat\<close>, \<open>>>\<close> is the
  arithmetic shift \<open>signed_drop_bit\<close>, and the result of \<open>|=\<close> on a number is read back
  with \<open>sint\<close>.
\<close>

type_synonym byte = "8 word"
type_synonym buffer = "byte list"

definition byte_at :: "buffer \<Rightarrow> nat \<Rightarrow> byte" where
  "byte_at buf i = (if i < length buf then buf ! i else 0)"

definition HEADER_SIZE_BYTES :: nat where
  "HEADER_SIZE_BYTES = 4"

definition HEADER_SIZE_BITS :: nat where
  "HEADER_SIZE_BITS = HEADER_SIZE_BYTES * 8"

section \<open>The LSB codec (src/algorithms/lsb.ts)\<close>

datatype lsb_error =
    CoverTooSmall nat nat
  | DataTooSmall
  | InvalidLengthZeroOrNegative
  | InvalidLengthExceeds int int

text \<open>\<open>(length >> i) & 1\<close>, the bit of the payload length written at header position \<open>i\<close>.\<close>

definition length_bit :: "nat \<Rightarrow> nat \<Rightarrow> byte" where
  "length_bit len i = ucast (signed_drop_bit i (word_of_nat len :: 32 word) AND 1)"

text \<open>\<open>(data[byteIndex] >> bitIndex) & 1\<close>.\<close>

definition payload_bit :: "buffer \<Rightarrow> nat \<Rightarrow> byte" where
  "payload_bit data i = drop_bit (i mod 8) (byte_at data (i div 8)) AND 1"

text \<open>\<open>(b & 0xFE) | bit\<close>.\<close>

definition set_lsb :: "byte \<Rightarrow> byte \<Rightarrow> byte" where
  "set_lsb b v = (b AND 0xFE) OR v"

text \<open>
  \<open>encodeLengthHeader\<close> writes into the buffer it is given; here the buffer is passed in
  and the updated buffer is returned.
\<close>

definition encodeLengthHeader :: "buffer \<Rightarrow> nat \<Rightarrow> buffer" where
  "encodeLengthHeader cover len =
     fold (\<lambda>i cover. cover[i := set_lsb (byte_at cover i) (length_bit len i)])
       [0..<HEADER_SIZE_BITS] cover"

definition decodeLengthHeader :: "buffer \<Rightarrow> int" where
  "decodeLengthHeader stegData =
     sint (fold (\<lambda>i len. if byte_at stegData i AND 1 = 1 then len OR push_bit i 1 else len)
       [0..<HEADER_SIZE_BITS] (0 :: 32 word))"

text \<open>The payload loop of \<open>encode\<close>, on the copy \<open>result\<close> of the cover.\<close>

definition encode_payload :: "buffer \<Rightarrow> buffer \<Rightarrow> buffer" where
  "encode_payload data result =
     fold (\<lambda>i result.
         result[i + HEADER_SIZE_BITS :=
           set_lsb (byte_at result (i + HEADER_SIZE_BITS)) (payload_bit data i)])
       [0..<length data * 8] result"

definition LSBAlgorithm_encode :: "buffer \<Rightarrow> buffer \<Rightarrow> lsb_error + buffer" where
  "LSBAlgorithm_encode data cover =
     (let requiredCoverSize = (length data + HEADER_SIZE_BYTES) * 8 in
      if length cover < requiredCoverSize
      then Inl (CoverTooSmall requiredCoverSize (length cover))
      else Inr (encode_payload data (encodeLengthHeader cover (length data))))"

text \<open>The extraction loop of \<open>decode\<close>, on the zero-filled \<open>result\<close>.\<close>

definition decode_payload :: "buffer \<Rightarrow> nat \<Rightarrow> buffer" where
  "decode_payload stegData dataLength =
     fold (\<lambda>i result.
         if byte_at stegData (i + HEADER_SIZE_BITS) AND 1 = 1
         then result[i div 8 := byte_at result (i div 8) OR push_bit (i mod 8) 1]
         else result)
       [0..<dataLength * 8] (replicate dataLength 0)"

text \<open>
  \<open>maxPossibleLength\<close> is the quotient \<open>(stegData.length - 32) / 8\<close>, not rounded: the
  comparison is between the decoded length and a fraction.
\<close>

definition LSBAlgorithm_decode :: "buffer \<Rightarrow> lsb_error + buffer" where
  "LSBAlgorithm_decode stegData =
     (if length stegData < HEADER_SIZE_BITS then Inl DataTooSmall
      else let dataLength = decodeLengthHeader stegData in
        if dataLength \<le> 0 then Inl InvalidLengthZeroOrNegative
        else let maxPossibleLength = (of_int (int (length stegData) - int HEADER_SIZE_BITS) :: rat) / 8 in
          if of_int dataLength > maxPossibleLength
          then Inl (InvalidLengthExceeds dataLength \<lfloor>maxPossibleLength\<rfloor>)
          else Inr (decode_payload stegData (nat dataLength)))"

definition LSBAlgorithm_calculateCapacity :: "buffer \<Rightarrow> int" where
  "LSBAlgorithm_calculateCapacity cover =
     (let totalBits = int (length cover) - int HEADER_SIZE_BITS in
      max 0 \<lfloor>(of_int totalBits :: rat) / 8\<rfloor>)"

definition LSBAlgorithm_validateCover :: "buffer \<Rightarrow> bool" where
  "LSBAlgorithm_validateCover cover \<longleftrightarrow> length cover \<ge> (HEADER_SIZE_BYTES + 1) * 8"

subsection \<open>Buffers as objects\<close>

text \<open>
  \<open>encode\<close> receives references to two buffers and writes into a third. To tell a write
  into the copy from a write into the cover, the buffers live in a store, a list of buffers
  addressed by position; \<open>Buffer.from(cover)\<close> allocates a new buffer with the cover's
  bytes at the next free address, and \<open>result[i] = v\<close> updates the buffer at the address
  \<open>result\<close>.
\<close>

type_synonym store = "buffer list"

definition load_byte :: "store \<Rightarrow> nat \<Rightarrow> nat \<Rightarrow> byte" where
  "load_byte h a i = byte_at (h ! a) i"

definition store_byte :: "store \<Rightarrow> nat \<Rightarrow> nat \<Rightarrow> byte \<Rightarrow> store" where
  "store_byte h a i v = h[a := (h ! a)[i := v]]"

definition Buffer_from :: "store \<Rightarrow> nat \<Rightarrow> nat \<times> store" where
  "Buffer_from h a = (length h, h @ [h ! a])"

definition encodeLengthHeader_st :: "store \<Rightarrow> nat \<Rightarrow> nat \<Rightarrow> store" where
  "encodeLengthHeader_st h cover len =
     fold (\<lambda>i h. store_byte h cover i (set_lsb (load_byte h cover i) (length_bit len i)))
       [0..<HEADER_SIZE_BITS] h"

definition LSBAlgorithm_encode_st :: "store \<Rightarrow> nat \<Rightarrow> nat \<Rightarrow> (lsb_error + nat) \<times> store" where
  "LSBAlgorithm_encode_st h data cover =
     (let requiredCoverSize = (length (h ! data) + HEADER_SIZE_BYTES) * 8 in
      if length (h ! cover) < requiredCoverSize
      then (Inl (CoverTooSmall requiredCoverSize (length (h ! cover))), h)
      else
        let (result, h1) = Buffer_from h cover;
            h2 = encodeLengthHeader_st h1 result (length (h1 ! data));
            h3 = fold (\<lambda>i h.
                   store_byte h result (i + HEADER_SIZE_BITS)
                     (set_lsb (load_byte h result (i + HEADER_SIZE_BITS)) (payload_bit (h ! data) i)))
                   [0..<length (h2 ! data) * 8] h2
        in (Inr result, h3))"

text \<open>The positions at which the least significant bits of two buffers differ.\<close>

definition lsb_differences :: "buffer \<Rightarrow> buffer \<Rightarrow> nat list" where
  "lsb_differences cover encoded =
     filter (\<lambda>i. byte_at cover i AND 1 \<noteq> byte_at encoded i AND 1) [0..<length encoded]"

section \<open>The engine (src/core/steg-engine.ts)\<close>

text \<open>
  \<open>CoverMedia\<close> and \<open>StegConfig\<close> are declared in \<open>steg-config.interface.ts\<close>; their
  fields are taken from the way the engine uses them. The fields \<open>algorithmCode\<close>,
  \<open>llmPrompt\<close>, \<open>llmProvider\<close> and \<open>encodingRatio\<close> of the configuration are stored and
  never read by the engine, and are left out. \<open>capacity\<close> is optional in a \<open>CoverMedia\<close>
  (\<open>media.capacity ?? \<dots>\<close>).
\<close>

record CoverMedia =
  cm_data :: buffer
  cm_type :: string
  cm_capacity :: "int option"

text \<open>What \<open>addCoverMedia\<close> may be given: a buffer, an object with a \<open>data\<close> field, or neither.\<close>

datatype cover_input = RawBuffer buffer | MediaObject CoverMedia | NotCoverMedia

datatype error_policy = Passthrough | Throw | Drop

record StegConfig =
  enabled :: bool
  algorithm_name :: string
  coverMedia :: "cover_input list"
  seed :: string
  onError :: error_policy
  debug :: bool

text \<open>\<open>Partial<StegConfig>\<close>: every field may be absent.\<close>

record StegConfig_partial =
  p_enabled :: "bool option"
  p_algorithm_name :: "string option"
  p_coverMedia :: "cover_input list option"
  p_seed :: "string option"
  p_onError :: "error_policy option"
  p_debug :: "bool option"

text \<open>
  A codec, as \<open>StegAlgorithm\<close> declares it. \<open>encode\<close> and \<open>decode\<close> return \<open>Inl\<close> of the
  thrown value when they throw. \<open>alg_acceptsSeed\<close> says whether the optional \<open>setSeed\<close> is
  present, and \<open>alg_seed\<close> is the seed it stored.
\<close>

record 'e StegAlgorithm =
  alg_name :: string
  alg_encode :: "buffer \<Rightarrow> buffer \<Rightarrow> 'e + buffer"
  alg_decode :: "buffer \<Rightarrow> 'e + buffer"
  alg_calculateCapacity :: "buffer \<Rightarrow> int"
  alg_acceptsSeed :: bool
  alg_seed :: "string option"

definition LSBAlgorithm :: "lsb_error StegAlgorithm" where
  "LSBAlgorithm =
     \<lparr>alg_name = ''lsb'', alg_encode = LSBAlgorithm_encode, alg_decode = LSBAlgorithm_decode,
      alg_calculateCapacity = LSBAlgorithm_calculateCapacity, alg_acceptsSeed = True,
      alg_seed = None\<rparr>"

definition alg_setSeed :: "string \<Rightarrow> 'e StegAlgorithm \<Rightarrow> 'e StegAlgorithm" where
  "alg_setSeed s alg = alg\<lparr>alg_seed := Some s\<rparr>"

text \<open>The messages of the engine's errors; \<open>'e\<close> is what the codec throws.\<close>

datatype 'e message =
    NoAlgorithmSet
  | NoCoverMediaAvailable
  | DataTooLarge nat int
  | EncodingFailed 'e
  | DecodingFailed 'e

record 'e StegEncodeResult =
  er_data :: buffer
  er_payloadSize :: nat
  er_coverSize :: nat
  er_algorithm :: string
  er_success :: bool
  er_error :: "'e message option"

record 'e StegDecodeResult =
  dr_data :: buffer
  dr_payloadSize :: nat
  dr_algorithm :: string
  dr_success :: bool
  dr_error :: "'e message option"

text \<open>
  The notifications. The \<open>durationMs\<close> of the \<open>encode\<close> and \<open>decode\<close> notifications is read
  from the clock and is left out.
\<close>

datatype 'e event =
    EncodeEvent "'e StegEncodeResult"
  | DecodeEvent "'e StegDecodeResult"
  | EncodeErrorEvent "'e message"
  | DecodeErrorEvent 'e
  | ConfigUpdatedEvent StegConfig

text \<open>What a call of the engine can throw: the error of the policy, or the emitter's.\<close>

datatype 'e thrown =
    ThrownError "'e message"
  | UnhandledErrorEvent "'e event"

text \<open>
  The engine extends Node's \<open>EventEmitter\<close>, so its state holds the listeners.
  \<open>errorListeners\<close> counts the listeners registered for \<open>'error'\<close>, and \<open>emitted\<close> records
  the notifications delivered. Listeners are the caller's code; they are taken to return.
\<close>

record 'e StegEngine =
  config :: StegConfig
  algorithm :: "'e StegAlgorithm option"
  coverMediaPool :: "CoverMedia list"
  coverIndex :: nat
  errorListeners :: nat
  emitted :: "'e event list"

definition emit :: "'e event \<Rightarrow> 'e StegEngine \<Rightarrow> 'e StegEngine" where
  "emit ev eng = eng\<lparr>emitted := emitted eng @ [ev]\<rparr>"

text \<open>
  \<open>emit('error', \<dots>)\<close>. Node's \<open>EventEmitter\<close> treats this event specially: when no
  listener is registered for \<open>'error'\<close>, \<open>emit\<close> throws instead of returning (the value
  emitted if it is an \<open>Error\<close>, an \<open>ERR_UNHANDLED_ERROR\<close> wrapping it otherwise; the engine
  emits plain objects).
\<close>

definition emit_error :: "'e event \<Rightarrow> 'e StegEngine \<Rightarrow> 'e thrown + 'e StegEngine" where
  "emit_error ev eng =
     (if errorListeners eng = 0 then Inl (UnhandledErrorEvent ev) else Inr (emit ev eng))"

text \<open>\<open>engine.on('error', listener)\<close>.\<close>

definition on_error :: "'e StegEngine \<Rightarrow> 'e StegEngine" where
  "on_error eng = eng\<lparr>errorListeners := Suc (errorListeners eng)\<rparr>"

definition normalizeSingleCover :: "cover_input \<Rightarrow> 'e StegEngine \<Rightarrow> CoverMedia option" where
  "normalizeSingleCover media eng =
     (case media of
        RawBuffer b \<Rightarrow>
          let capacity = (case algorithm eng of
                Some alg \<Rightarrow> alg_calculateCapacity alg b
              | None \<Rightarrow> \<lfloor>(of_int (int (length b) - 4) :: rat) / 8\<rfloor>)
          in Some \<lparr>cm_data = b, cm_type = ''binary'', cm_capacity = Some capacity\<rparr>
      | MediaObject m \<Rightarrow>
          let capacity = (case cm_capacity m of
                Some k \<Rightarrow> k
              | None \<Rightarrow> (case algorithm eng of
                    Some alg \<Rightarrow> alg_calculateCapacity alg (cm_data m)
                  | None \<Rightarrow> \<lfloor>(of_int (int (length (cm_data m)) - 4) :: rat) / 8\<rfloor>))
          in Some (m\<lparr>cm_capacity := Some capacity\<rparr>)
      | NotCoverMedia \<Rightarrow> None)"

definition normalizeCoverMedia :: "'e StegEngine \<Rightarrow> 'e StegEngine" where
  "normalizeCoverMedia eng =
     eng\<lparr>coverMediaPool :=
       fold (\<lambda>media pool. case normalizeSingleCover media eng of
               Some normalized \<Rightarrow> pool @ [normalized]
             | None \<Rightarrow> pool)
         (coverMedia (config eng)) []\<rparr>"

text \<open>
  The constructor. The default seed is drawn at random; it is the parameter \<open>randomSeed\<close>.
\<close>

definition StegEngine_new :: "string \<Rightarrow> StegConfig_partial \<Rightarrow> 'e StegEngine" where
  "StegEngine_new randomSeed c =
     normalizeCoverMedia
       \<lparr>config = \<lparr>enabled = (case p_enabled c of Some b \<Rightarrow> b | None \<Rightarrow> True),
                  algorithm_name = (case p_algorithm_name c of Some a \<Rightarrow> a | None \<Rightarrow> ''lsb''),
                  coverMedia = (case p_coverMedia c of Some ms \<Rightarrow> ms | None \<Rightarrow> []),
                  seed = (case p_seed c of Some s \<Rightarrow> s | None \<Rightarrow> randomSeed),
                  onError = (case p_onError c of Some p \<Rightarrow> p | None \<Rightarrow> Passthrough),
                  debug = (case p_debug c of Some d \<Rightarrow> d | None \<Rightarrow> False)\<rparr>,
        algorithm = None, coverMediaPool = [], coverIndex = 0, errorListeners = 0,
        emitted = []\<rparr>"

text \<open>The configuration \<open>{}\<close>.\<close>

definition no_options :: StegConfig_partial where
  "no_options =
     \<lparr>p_enabled = None, p_algorithm_name = None, p_coverMedia = None, p_seed = None,
      p_onError = None, p_debug = None\<rparr>"

definition setAlgorithm :: "'e StegAlgorithm \<Rightarrow> 'e StegEngine \<Rightarrow> 'e StegEngine" where
  "setAlgorithm alg eng =
     eng\<lparr>algorithm :=
       Some (if seed (config eng) \<noteq> [] \<and> alg_acceptsSeed alg
             then alg_setSeed (seed (config eng)) alg else alg)\<rparr>"

definition addCoverMedia :: "cover_input \<Rightarrow> 'e StegEngine \<Rightarrow> 'e StegEngine" where
  "addCoverMedia media eng =
     (case normalizeSingleCover media eng of
        Some normalized \<Rightarrow> eng\<lparr>coverMediaPool := coverMediaPool eng @ [normalized]\<rparr>
      | None \<Rightarrow> eng)"

text \<open>
  \<open>getNextCover\<close>. \<open>this.coverMediaPool[this.coverIndex]\<close> is \<open>undefined\<close> when the index
  is not inside the pool, and the caller's \<open>if (!cover)\<close> treats that as no cover.
\<close>

definition getNextCover :: "'e StegEngine \<Rightarrow> CoverMedia option \<times> 'e StegEngine" where
  "getNextCover eng =
     (if length (coverMediaPool eng) = 0 then (None, eng)
      else
        let cover = (if coverIndex eng < length (coverMediaPool eng)
                     then Some (coverMediaPool eng ! coverIndex eng) else None)
        in (cover, eng\<lparr>coverIndex := (coverIndex eng + 1) mod length (coverMediaPool eng)\<rparr>))"

definition handleError ::
  "'e message \<Rightarrow> buffer \<Rightarrow> 'e StegEngine \<Rightarrow> ('e thrown + 'e StegEncodeResult) \<times> 'e StegEngine"
where
  "handleError msg originalData eng =
     (case emit_error (EncodeErrorEvent msg) eng of
        Inl unhandled \<Rightarrow> (Inl unhandled, eng)
      | Inr eng1 \<Rightarrow>
          (case onError (config eng1) of
             Throw \<Rightarrow> (Inl (ThrownError msg), eng1)
           | Drop \<Rightarrow>
               (Inr \<lparr>er_data = [], er_payloadSize = 0, er_coverSize = 0,
                     er_algorithm = algorithm_name (config eng1), er_success = False,
                     er_error = Some msg\<rparr>, eng1)
           | Passthrough \<Rightarrow>
               (Inr \<lparr>er_data = originalData, er_payloadSize = length originalData,
                     er_coverSize = length originalData,
                     er_algorithm = algorithm_name (config eng1), er_success = False,
                     er_error = Some msg\<rparr>, eng1)))"

definition StegEngine_encode ::
  "buffer \<Rightarrow> 'e StegEngine \<Rightarrow> ('e thrown + 'e StegEncodeResult) \<times> 'e StegEngine"
where
  "StegEngine_encode data eng =
     (if \<not> enabled (config eng)
      then (Inr \<lparr>er_data = data, er_payloadSize = length data, er_coverSize = length data,
                 er_algorithm = algorithm_name (config eng), er_success = True,
                 er_error = None\<rparr>, eng)
      else case algorithm eng of
        None \<Rightarrow> handleError NoAlgorithmSet data eng
      | Some alg \<Rightarrow>
          (case getNextCover eng of
             (None, eng1) \<Rightarrow> handleError NoCoverMediaAvailable data eng1
           | (Some cover, eng1) \<Rightarrow>
               let capacity = alg_calculateCapacity alg (cm_data cover) in
               if int (length data) > capacity
               then handleError (DataTooLarge (length data) capacity) data eng1
               else (case alg_encode alg data (cm_data cover) of
                  Inr encoded \<Rightarrow>
                    let result = \<lparr>er_data = encoded, er_payloadSize = length data,
                                  er_coverSize = length (cm_data cover),
                                  er_algorithm = algorithm_name (config eng1),
                                  er_success = True, er_error = None\<rparr>
                    in (Inr result, emit (EncodeEvent result) eng1)
                | Inl err \<Rightarrow> handleError (EncodingFailed err) data eng1)))"

definition StegEngine_decode ::
  "buffer \<Rightarrow> 'e StegEngine \<Rightarrow> ('e thrown + 'e StegDecodeResult) \<times> 'e StegEngine"
where
  "StegEngine_decode stegData eng =
     (if \<not> enabled (config eng)
      then (Inr \<lparr>dr_data = stegData, dr_payloadSize = length stegData,
                 dr_algorithm = algorithm_name (config eng), dr_success = True,
                 dr_error = None\<rparr>, eng)
      else case algorithm eng of
        None \<Rightarrow>
          (Inr \<lparr>dr_data = [], dr_payloadSize = 0, dr_algorithm = algorithm_name (config eng),
                dr_success = False, dr_error = Some NoAlgorithmSet\<rparr>, eng)
      | Some alg \<Rightarrow>
          (case alg_decode alg stegData of
             Inr decoded \<Rightarrow>
               let result = \<lparr>dr_data = decoded, dr_payloadSize = length decoded,
                             dr_algorithm = algorithm_name (config eng), dr_success = True,
                             dr_error = None\<rparr>
               in (Inr result, emit (DecodeEvent result) eng)
           | Inl err \<Rightarrow>
               let result = \<lparr>dr_data = [], dr_payloadSize = 0,
                             dr_algorithm = algorithm_name (config eng), dr_success = False,
                             dr_error = Some (DecodingFailed err)\<rparr>
               in (case emit_error (DecodeErrorEvent err) eng of
                     Inl unhandled \<Rightarrow> (Inl unhandled, eng)
                   | Inr eng1 \<Rightarrow> (Inr result, eng1))))"

text \<open>\<open>Object.assign(this.config, config)\<close>: the fields present replace the old ones.\<close>

definition assign_config :: "StegConfig \<Rightarrow> StegConfig_partial \<Rightarrow> StegConfig" where
  "assign_config c p =
     \<lparr>enabled = (case p_enabled p of Some b \<Rightarrow> b | None \<Rightarrow> enabled c),
      algorithm_name = (case p_algorithm_name p of Some a \<Rightarrow> a | None \<Rightarrow> algorithm_name c),
      coverMedia = (case p_coverMedia p of Some ms \<Rightarrow> ms | None \<Rightarrow> coverMedia c),
      seed = (case p_seed p of Some s \<Rightarrow> s | None \<Rightarrow> seed c),
      onError = (case p_onError p of Some e \<Rightarrow> e | None \<Rightarrow> onError c),
      debug = (case p_debug p of Some d \<Rightarrow> d | None \<Rightarrow> debug c)\<rparr>"

definition updateConfig :: "StegConfig_partial \<Rightarrow> 'e StegEngine \<Rightarrow> 'e StegEngine" where
  "updateConfig p eng =
     (let eng1 = eng\<lparr>config := assign_config (config eng) p\<rparr>;
          eng2 = (case p_coverMedia p of Some ms \<Rightarrow> normalizeCoverMedia eng1 | None \<Rightarrow> eng1);
          eng3 = (case (p_seed p, algorithm eng2) of
                    (Some s, Some alg) \<Rightarrow>
                      if s \<noteq> [] \<and> alg_acceptsSeed alg
                      then eng2\<lparr>algorithm := Some (alg_setSeed s alg)\<rparr> else eng2
                  | _ \<Rightarrow> eng2)
      in emit (ConfigUpdatedEvent (config eng3)) eng3)"

record PoolStats =
  size :: nat
  totalCapacity :: int
  averageCapacity :: int

definition getPoolStats :: "'e StegEngine \<Rightarrow> PoolStats" where
  "getPoolStats eng =
     (let total = fold (\<lambda>c sum. sum + (case cm_capacity c of Some k \<Rightarrow> k | None \<Rightarrow> 0))
                    (coverMediaPool eng) 0
      in \<lparr>size = length (coverMediaPool eng), totalCapacity = total,
          averageCapacity =
            (if length (coverMediaPool eng) > 0
             then \<lfloor>(of_int total :: rat) / of_nat (length (coverMediaPool eng))\<rfloor> else 0)\<rparr>)"

text \<open>
  The buffer that \<open>encode\<close> returns when the cover is large enough: the copy of the cover
  after the header has been written and the payload embedded.
\<close>

definition embed :: "buffer \<Rightarrow> buffer \<Rightarrow> buffer" where
  "embed p c = encode_payload p (encodeLengthHeader c (length p))"

section \<open>Scenarios\<close>

text \<open>The codec as \<open>setAlgorithm\<close> stores it: with the configured seed, if it takes one.\<close>

definition seeded :: "string \<Rightarrow> 'e StegAlgorithm \<Rightarrow> 'e StegAlgorithm" where
  "seeded sd alg = (if sd \<noteq> [] \<and> alg_acceptsSeed alg then alg_setSeed sd alg else alg)"

text \<open>
  An engine made with the configuration \<open>{}\<close>, given a codec, then two covers added as
  buffers, \<open>a\<close> first.
\<close>

definition two_covers :: "'e StegAlgorithm \<Rightarrow> string \<Rightarrow> buffer \<Rightarrow> buffer \<Rightarrow> 'e StegEngine" where
  "two_covers alg sd a b =
     addCoverMedia (RawBuffer b) (addCoverMedia (RawBuffer a)
       (setAlgorithm alg (StegEngine_new sd no_options)))"

section \<open>What encode writes, position by position\<close>

lemma length_fold_set_lsb:
  "length (fold (\<lambda>i b. b[i + off := set_lsb (byte_at b (i + off)) (v i)]) [0..<n] buf) = length buf"
  by (induction n) simp_all

lemma nth_fold_set_lsb:
  "j < length buf \<Longrightarrow>
   fold (\<lambda>i b. b[i + off := set_lsb (byte_at b (i + off)) (v i)]) [0..<n] buf ! j
     = (if off \<le> j \<and> j < off + n then set_lsb (buf ! j) (v (j - off)) else buf ! j)"
proof (induction n)
  case 0
  then show ?case by auto
next
  case (Suc n)
  let ?b = "fold (\<lambda>i b. b[i + off := set_lsb (byte_at b (i + off)) (v i)]) [0..<n] buf"
  have len: "length ?b = length buf" by (rule length_fold_set_lsb)
  show ?case
  proof (cases "j = n + off")
    case True
    with Suc len show ?thesis by (simp add: byte_at_def)
  next
    case False
    with Suc len show ?thesis by (auto simp: nth_list_update)
  qed
qed

lemma length_encodeLengthHeader: "length (encodeLengthHeader cover len) = length cover"
  using length_fold_set_lsb [of 0 "length_bit len" HEADER_SIZE_BITS cover]
  by (simp add: encodeLengthHeader_def)

lemma nth_encodeLengthHeader:
  "j < length cover \<Longrightarrow>
   encodeLengthHeader cover len ! j
     = (if j < 32 then set_lsb (cover ! j) (length_bit len j) else cover ! j)"
  using nth_fold_set_lsb [of j cover 0 "length_bit len" HEADER_SIZE_BITS]
  by (simp add: encodeLengthHeader_def HEADER_SIZE_BITS_def HEADER_SIZE_BYTES_def)

lemma length_encode_payload: "length (encode_payload data result) = length result"
  using length_fold_set_lsb [of HEADER_SIZE_BITS "payload_bit data" "length data * 8" result]
  by (simp add: encode_payload_def)

lemma nth_encode_payload:
  "j < length result \<Longrightarrow>
   encode_payload data result ! j
     = (if 32 \<le> j \<and> j < 32 + length data * 8
        then set_lsb (result ! j) (payload_bit data (j - 32)) else result ! j)"
  using nth_fold_set_lsb [of j result HEADER_SIZE_BITS "payload_bit data" "length data * 8"]
  by (simp add: encode_payload_def HEADER_SIZE_BITS_def HEADER_SIZE_BYTES_def)

lemma FE_eq: "(0xFE :: byte) = NOT 1" by simp

lemma bit_FE: "bit (0xFE :: byte) k \<longleftrightarrow> 0 < k \<and> k < 8"
  unfolding FE_eq by (auto simp add: bit_simps)

lemma bit_set_lsb: "bit (set_lsb b v) k \<longleftrightarrow> (bit b k \<and> 0 < k) \<or> bit v k"
  using bit_FE [of k] bit_imp_le_length [of b k]
  unfolding set_lsb_def by (auto simp add: bit_or_iff bit_and_iff)

lemma bit_length_bit: "i < 32 \<Longrightarrow> bit (length_bit len i) k \<longleftrightarrow> k = 0 \<and> bit (word_of_nat len :: 32 word) i"
  unfolding length_bit_def by (auto simp add: bit_simps)

lemma bit_payload_bit: "bit (payload_bit d i) k \<longleftrightarrow> k = 0 \<and> bit (byte_at d (i div 8)) (i mod 8)"
  unfolding payload_bit_def by (auto simp add: bit_simps)

lemma and1_eq1_iff: "(w :: 'a::len word) AND 1 = 1 \<longleftrightarrow> bit w 0"
  by (simp add: and_one_eq bit_0 mod_2_eq_odd)

section \<open>What decode reads, bit by bit\<close>

lemma bit_fold_header:
  "bit (fold (\<lambda>i len. if byte_at s i AND 1 = 1 then len OR push_bit i 1 else len) [0..<n] (0 :: 32 word)) k
     \<longleftrightarrow> k < n \<and> k < 32 \<and> bit (byte_at s k) 0"
proof (induction n)
  case 0
  then show ?case by simp
next
  case (Suc n)
  then show ?case
    by (auto simp add: and1_eq1_iff bit_or_iff bit_exp_iff less_Suc_eq)
qed

lemma length_fold_decode:
  "length (fold (\<lambda>i result.
         if byte_at s (i + off) AND 1 = 1
         then result[i div 8 := byte_at result (i div 8) OR push_bit (i mod 8) 1]
         else result) [0..<m] r) = length r"
  by (induction m) simp_all

lemma bit_push_bit_1_byte: "bit (2 ^ k :: byte) b \<longleftrightarrow> b = k \<and> k < 8"
  by (auto simp add: bit_exp_iff)

lemma bit_fold_decode:
  "m \<le> 8 * n \<Longrightarrow> j < n \<Longrightarrow>
   bit (fold (\<lambda>i result.
         if byte_at s (i + off) AND 1 = 1
         then result[i div 8 := byte_at result (i div 8) OR push_bit (i mod 8) 1]
         else result) [0..<m] (replicate n 0) ! j) b
   \<longleftrightarrow> b < 8 \<and> 8 * j + b < m \<and> bit (byte_at s (8 * j + b + off)) 0"
proof (induction m)
  case 0
  then show ?case by simp
next
  case (Suc m)
  let ?r = "fold (\<lambda>i result.
         if byte_at s (i + off) AND 1 = 1
         then result[i div 8 := byte_at result (i div 8) OR push_bit (i mod 8) 1]
         else result) [0..<m] (replicate n 0)"
  have len: "length ?r = n" by (simp add: length_fold_decode)
  from Suc.prems have m: "m div 8 < n" by auto
  have IH: "bit (?r ! j) b \<longleftrightarrow> b < 8 \<and> 8 * j + b < m \<and> bit (byte_at s (8 * j + b + off)) 0"
    using Suc by simp
  have split: "8 * j + b < Suc m \<longleftrightarrow> 8 * j + b < m \<or> 8 * j + b = m" by auto
  show ?case
  proof (cases "bit (byte_at s (m + off)) 0")
    case False
    then have "b < 8 \<Longrightarrow> 8 * j + b = m \<Longrightarrow> \<not> bit (byte_at s (8 * j + b + off)) 0" by simp
    with False IH show ?thesis by (auto simp add: and1_eq1_iff split)
  next
    case True
    show ?thesis
    proof (cases "j = m div 8")
      case jm: True
      have "bit ((?r[m div 8 := byte_at ?r (m div 8) OR push_bit (m mod 8) 1]) ! j) b
          \<longleftrightarrow> bit (?r ! j) b \<or> b = m mod 8"
      proof -
        have "byte_at ?r (m div 8) = ?r ! j" using jm m len by (simp add: byte_at_def)
        moreover have "(?r[m div 8 := x]) ! j = x" for x using jm m len by simp
        ultimately show ?thesis
          by (simp add: bit_or_iff bit_push_bit_1_byte)
      qed
      also have "\<dots> \<longleftrightarrow> b < 8 \<and> 8 * j + b < Suc m \<and> bit (byte_at s (8 * j + b + off)) 0"
      proof -
        have e: "b < 8 \<Longrightarrow> 8 * j + b = m \<longleftrightarrow> b = m mod 8"
          using jm by presburger
        have "m mod 8 < 8" by simp
        moreover have "8 * j + m mod 8 = m" using jm by simp
        ultimately show ?thesis using IH True e unfolding split by auto
      qed
      finally show ?thesis using True by (simp add: and1_eq1_iff)
    next
      case jm: False
      then have "b < 8 \<Longrightarrow> 8 * j + b \<noteq> m" by auto
      with jm IH True len \<open>j < n\<close> show ?thesis
        by (auto simp add: and1_eq1_iff split)
    qed
  qed
qed

lemma sint_word_of_nat_32: "len < 2 ^ 31 \<Longrightarrow> sint (word_of_nat len :: 32 word) = int len"
  by (simp add: signed_of_nat signed_take_bit_int_eq_self)

section \<open>Decoding what encode wrote\<close>

lemma length_embed: "length (embed p c) = length c"
  by (simp add: embed_def length_encode_payload length_encodeLengthHeader)

lemma nth_embed:
  "j < length c \<Longrightarrow>
   embed p c ! j =
     (if j < 32 then set_lsb (c ! j) (length_bit (length p) j)
      else if j < 32 + length p * 8 then set_lsb (c ! j) (payload_bit p (j - 32))
      else c ! j)"
  by (simp add: embed_def nth_encode_payload nth_encodeLengthHeader length_encodeLengthHeader)

lemma LSBAlgorithm_encode_embed:
  "(length p + 4) * 8 \<le> length c \<Longrightarrow> LSBAlgorithm_encode p c = Inr (embed p c)"
  by (simp add: LSBAlgorithm_encode_def embed_def HEADER_SIZE_BYTES_def)

lemma decodeLengthHeader_embed:
  assumes "(length p + 4) * 8 \<le> length c"
  shows "decodeLengthHeader (embed p c) = sint (word_of_nat (length p) :: 32 word)"
proof -
  have "fold (\<lambda>i len. if byte_at (embed p c) i AND 1 = 1 then len OR push_bit i 1 else len)
          [0..<32] (0 :: 32 word) = word_of_nat (length p)"
  proof (rule bit_word_eqI)
    fix k assume "k < LENGTH(32)"
    then have k: "k < 32" by simp
    with assms have "byte_at (embed p c) k = set_lsb (c ! k) (length_bit (length p) k)"
      by (simp add: byte_at_def length_embed nth_embed)
    with k show "bit (fold (\<lambda>i len. if byte_at (embed p c) i AND 1 = 1 then len OR push_bit i 1 else len)
          [0..<32] (0 :: 32 word)) k = bit (word_of_nat (length p) :: 32 word) k"
      by (simp add: bit_fold_header bit_set_lsb bit_length_bit)
  qed
  then show ?thesis
    by (simp add: decodeLengthHeader_def HEADER_SIZE_BITS_def HEADER_SIZE_BYTES_def)
qed

lemma decode_payload_embed:
  assumes "(length p + 4) * 8 \<le> length c"
  shows "decode_payload (embed p c) (length p) = p"
proof (rule nth_equalityI)
  show "length (decode_payload (embed p c) (length p)) = length p"
    by (simp add: decode_payload_def length_fold_decode)
next
  fix j assume "j < length (decode_payload (embed p c) (length p))"
  then have j: "j < length p" by (simp add: decode_payload_def length_fold_decode)
  show "decode_payload (embed p c) (length p) ! j = p ! j"
  proof (rule bit_word_eqI)
    fix b assume "b < LENGTH(8)"
    then have b: "b < 8" by simp
    with j have lt: "8 * j + b < length p * 8" by simp
    with assms have "byte_at (embed p c) (8 * j + b + 32)
        = set_lsb (c ! (8 * j + b + 32)) (payload_bit p (8 * j + b))"
      by (simp add: byte_at_def length_embed nth_embed)
    moreover have "(8 * j + b) div 8 = j" "(8 * j + b) mod 8 = b" using b by simp_all
    ultimately have "bit (byte_at (embed p c) (8 * j + b + 32)) 0 \<longleftrightarrow> bit (p ! j) b"
      using j by (simp add: bit_set_lsb bit_payload_bit byte_at_def)
    with b lt j show "bit (decode_payload (embed p c) (length p) ! j) b = bit (p ! j) b"
      using bit_fold_decode [of "length p * 8" "length p" j "embed p c" 32 b]
      by (simp add: decode_payload_def HEADER_SIZE_BITS_def HEADER_SIZE_BYTES_def mult.commute)
  qed
qed

lemma LSBAlgorithm_roundtrip:
  assumes "0 < length p" "length p < 2 ^ 31" "(length p + 4) * 8 \<le> length c"
  shows "\<exists>s. LSBAlgorithm_encode p c = Inr s \<and> LSBAlgorithm_decode s = Inr p"
proof -
  have hdr: "decodeLengthHeader (embed p c) = int (length p)"
    using assms by (simp add: decodeLengthHeader_embed sint_word_of_nat_32)
  have "int (length p) * 8 \<le> int (length c) - 32" using assms by simp
  then have "(of_int (int (length p)) :: rat) \<le> of_int (int (length c) - 32) / 8"
    by (metis (no_types) of_int_le_iff of_int_mult of_int_numeral pos_le_divide_eq zero_less_numeral)
  then have "LSBAlgorithm_decode (embed p c) = Inr p"
    using assms hdr
    by (simp add: LSBAlgorithm_decode_def length_embed decode_payload_embed
        HEADER_SIZE_BITS_def HEADER_SIZE_BYTES_def not_less)
  with assms show ?thesis by (simp add: LSBAlgorithm_encode_embed)
qed

section \<open>Encode on the store\<close>

lemma fold_store_header:
  "a < length h \<Longrightarrow>
   fold (\<lambda>i h. store_byte h a (i + off) (set_lsb (load_byte h a (i + off)) (v i))) [0..<n] h
     = h[a := fold (\<lambda>i b. b[i + off := set_lsb (byte_at b (i + off)) (v i)]) [0..<n] (h ! a)]"
  by (induction n) (simp_all add: store_byte_def load_byte_def)

lemma fold_store_payload:
  "a < length h \<Longrightarrow> d < length h \<Longrightarrow> d \<noteq> a \<Longrightarrow>
   fold (\<lambda>i h. store_byte h a (i + off) (set_lsb (load_byte h a (i + off)) (payload_bit (h ! d) i))) [0..<n] h
     = h[a := fold (\<lambda>i b. b[i + off := set_lsb (byte_at b (i + off)) (payload_bit (h ! d) i)]) [0..<n] (h ! a)]"
  by (induction n) (simp_all add: store_byte_def load_byte_def)

lemma LSBAlgorithm_encode_st_eq:
  assumes "data < length h" "cover < length h"
    and "(length (h ! data) + 4) * 8 \<le> length (h ! cover)"
  shows "LSBAlgorithm_encode_st h data cover = (Inr (length h), h @ [embed (h ! data) (h ! cover)])"
proof -
  let ?h1 = "h @ [h ! cover]"
  have d1: "?h1 ! data = h ! data" using assms by (simp add: nth_append)
  have h2: "encodeLengthHeader_st ?h1 (length h) (length (h ! data))
      = h @ [encodeLengthHeader (h ! cover) (length (h ! data))]"
    using fold_store_header [of "length h" ?h1 0 "length_bit (length (h ! data))" HEADER_SIZE_BITS]
    by (simp add: encodeLengthHeader_st_def encodeLengthHeader_def)
  let ?h2 = "h @ [encodeLengthHeader (h ! cover) (length (h ! data))]"
  have d2: "?h2 ! data = h ! data" using assms by (simp add: nth_append)
  have h3: "fold (\<lambda>i h'. store_byte h' (length h) (i + HEADER_SIZE_BITS)
                (set_lsb (load_byte h' (length h) (i + HEADER_SIZE_BITS)) (payload_bit (h' ! data) i)))
              [0..<length (h ! data) * 8] ?h2
      = h @ [embed (h ! data) (h ! cover)]"
    using fold_store_payload [of "length h" ?h2 data HEADER_SIZE_BITS "length (h ! data) * 8"] assms d2
    by (simp add: embed_def encode_payload_def)
  show ?thesis
    using assms
    by (simp add: LSBAlgorithm_encode_st_def Buffer_from_def HEADER_SIZE_BYTES_def d1 h2 d2 h3)
qed

lemma high_bits_embed: "map (drop_bit 1) (embed p c) = map (drop_bit 1) c"
proof (rule nth_equalityI)
  show "length (map (drop_bit 1) (embed p c)) = length (map (drop_bit 1) c)"
    by (simp add: length_embed)
next
  fix j assume "j < length (map (drop_bit 1) (embed p c))"
  then have j: "j < length c" by (simp add: length_embed)
  have "drop_bit 1 (embed p c ! j) = drop_bit 1 (c ! j)"
    by (rule bit_word_eqI)
      (simp add: nth_embed j bit_drop_bit_eq bit_set_lsb bit_length_bit bit_payload_bit)
  with j show "map (drop_bit 1) (embed p c) ! j = map (drop_bit 1) c ! j"
    by (simp add: length_embed)
qed

lemma drop_embed: "drop ((length p + 4) * 8) (embed p c) = drop ((length p + 4) * 8) c"
  by (rule nth_equalityI) (simp_all add: length_embed nth_embed)

lemma lsb_differences_bound:
  assumes "length e = length c" and "drop k e = drop k c"
  shows "length (lsb_differences c e) \<le> k"
proof (cases "k \<le> length e")
  case True
  have same: "byte_at c i = byte_at e i" if "k \<le> i" "i < length e" for i
  proof -
    have "e ! i = c ! i"
      using arg_cong [OF assms(2), of "\<lambda>xs. xs ! (i - k)"] that assms(1) by simp
    with assms that show ?thesis by (simp add: byte_at_def)
  qed
  have "[0..<length e] = [0..<k] @ [k..<length e]"
    using True by (metis le_add_diff_inverse upt_add_eq_append zero_le)
  moreover have "filter (\<lambda>i. byte_at c i AND 1 \<noteq> byte_at e i AND 1) [k..<length e] = []"
    using same by (simp add: filter_empty_conv)
  ultimately have "lsb_differences c e = filter (\<lambda>i. byte_at c i AND 1 \<noteq> byte_at e i AND 1) [0..<k]"
    by (simp add: lsb_differences_def)
  then show ?thesis
    using length_filter_le [of "\<lambda>i. byte_at c i AND 1 \<noteq> byte_at e i AND 1" "[0..<k]"] by simp
next
  case False
  then show ?thesis
    using length_filter_le [of "\<lambda>i. byte_at c i AND 1 \<noteq> byte_at e i AND 1" "[0..<length e]"]
    by (simp add: lsb_differences_def)
qed

section \<open>Capacity\<close>

lemma floor_rat_div8: "\<lfloor>(of_int k :: rat) / 8\<rfloor> = k div 8"
  using floor_divide_of_int_eq [of k 8, where ?'a = rat] by simp

lemma LSBAlgorithm_calculateCapacity_int:
  "LSBAlgorithm_calculateCapacity cover = max 0 ((int (length cover) - 32) div 8)"
  by (simp add: LSBAlgorithm_calculateCapacity_def HEADER_SIZE_BITS_def HEADER_SIZE_BYTES_def
      floor_rat_div8)

section \<open>The codec's decode failures\<close>

lemma LSBAlgorithm_decode_too_small:
  "length s < 32 \<Longrightarrow> LSBAlgorithm_decode s = Inl DataTooSmall"
  by (simp add: LSBAlgorithm_decode_def HEADER_SIZE_BITS_def HEADER_SIZE_BYTES_def)

lemma rat_gt_div8: "(of_int d :: rat) > of_int k / 8 \<longleftrightarrow> d > k div 8"
proof -
  have "(of_int d :: rat) > of_int k / 8 \<longleftrightarrow> \<lfloor>(of_int k :: rat) / 8\<rfloor> < d"
    by (simp add: floor_less_iff)
  then show ?thesis by (simp add: floor_rat_div8)
qed

lemma LSBAlgorithm_decode_cases:
  "LSBAlgorithm_decode s =
     (if length s < 32 then Inl DataTooSmall
      else if decodeLengthHeader s \<le> 0 then Inl InvalidLengthZeroOrNegative
      else if decodeLengthHeader s > (int (length s) - 32) div 8
      then Inl (InvalidLengthExceeds (decodeLengthHeader s) ((int (length s) - 32) div 8))
      else Inr (decode_payload s (nat (decodeLengthHeader s))))"
  unfolding LSBAlgorithm_decode_def HEADER_SIZE_BITS_def HEADER_SIZE_BYTES_def Let_def
    rat_gt_div8 floor_rat_div8
  by simp

section \<open>The engine, case by case\<close>

lemma StegEngine_decode_no_algorithm:
  "enabled (config eng) \<Longrightarrow> algorithm eng = None \<Longrightarrow>
   StegEngine_decode s eng =
     (Inr \<lparr>dr_data = [], dr_payloadSize = 0, dr_algorithm = algorithm_name (config eng),
           dr_success = False, dr_error = Some NoAlgorithmSet\<rparr>, eng)"
  by (simp add: StegEngine_decode_def)

lemma StegEngine_decode_failure:
  "enabled (config eng) \<Longrightarrow> algorithm eng = Some alg \<Longrightarrow> alg_decode alg s = Inl err \<Longrightarrow>
   StegEngine_decode s eng =
     (if errorListeners eng = 0 then (Inl (UnhandledErrorEvent (DecodeErrorEvent err)), eng)
      else (Inr \<lparr>dr_data = [], dr_payloadSize = 0, dr_algorithm = algorithm_name (config eng),
                 dr_success = False, dr_error = Some (DecodingFailed err)\<rparr>,
            emit (DecodeErrorEvent err) eng))"
  by (simp add: StegEngine_decode_def emit_error_def)

lemma StegEngine_decode_ignores_onError:
  "fst (StegEngine_decode s (eng\<lparr>config := (config eng)\<lparr>onError := pol\<rparr>\<rparr>)) = fst (StegEngine_decode s eng)"
  by (simp add: StegEngine_decode_def emit_error_def emit_def Let_def split: option.splits sum.splits)

lemma handleError_policy:
  "0 < errorListeners eng \<Longrightarrow>
   handleError msg p eng =
     (case onError (config eng) of
        Throw \<Rightarrow> Inl (ThrownError msg)
      | Drop \<Rightarrow> Inr \<lparr>er_data = [], er_payloadSize = 0, er_coverSize = 0,
                     er_algorithm = algorithm_name (config eng), er_success = False,
                     er_error = Some msg\<rparr>
      | Passthrough \<Rightarrow> Inr \<lparr>er_data = p, er_payloadSize = length p, er_coverSize = length p,
                     er_algorithm = algorithm_name (config eng), er_success = False,
                     er_error = Some msg\<rparr>,
      emit (EncodeErrorEvent msg) eng)"
  by (simp add: handleError_def emit_error_def emit_def split: error_policy.splits)

lemma handleError_no_listener:
  "errorListeners eng = 0 \<Longrightarrow>
   handleError msg p eng = (Inl (UnhandledErrorEvent (EncodeErrorEvent msg)), eng)"
  by (simp add: handleError_def emit_error_def)

lemma StegEngine_encode_failure_sites:
  "enabled (config eng) \<Longrightarrow>
   StegEngine_encode p eng =
     (case algorithm eng of
        None \<Rightarrow> handleError NoAlgorithmSet p eng
      | Some alg \<Rightarrow>
          if coverMediaPool eng = [] then handleError NoCoverMediaAvailable p eng
          else
            let eng1 = eng\<lparr>coverIndex := (coverIndex eng + 1) mod length (coverMediaPool eng)\<rparr> in
            if \<not> coverIndex eng < length (coverMediaPool eng)
            then handleError NoCoverMediaAvailable p eng1
            else
              let cover = coverMediaPool eng ! coverIndex eng in
              if int (length p) > alg_calculateCapacity alg (cm_data cover)
              then handleError (DataTooLarge (length p) (alg_calculateCapacity alg (cm_data cover))) p eng1
              else (case alg_encode alg p (cm_data cover) of
                  Inl err \<Rightarrow> handleError (EncodingFailed err) p eng1
                | Inr encoded \<Rightarrow>
                    (Inr \<lparr>er_data = encoded, er_payloadSize = length p,
                          er_coverSize = length (cm_data cover),
                          er_algorithm = algorithm_name (config eng), er_success = True,
                          er_error = None\<rparr>,
                     emit (EncodeEvent \<lparr>er_data = encoded, er_payloadSize = length p,
                          er_coverSize = length (cm_data cover),
                          er_algorithm = algorithm_name (config eng), er_success = True,
                          er_error = None\<rparr>) eng1)))"
  by (simp add: StegEngine_encode_def getNextCover_def Let_def split: option.splits sum.splits)

lemma StegEngine_new_no_options:
  "(StegEngine_new sd no_options :: 'e StegEngine) =
     \<lparr>config = \<lparr>enabled = True, algorithm_name = ''lsb'', coverMedia = [], seed = sd,
                onError = Passthrough, debug = False\<rparr>,
      algorithm = None, coverMediaPool = [], coverIndex = 0, errorListeners = 0, emitted = []\<rparr>"
  by (simp add: StegEngine_new_def no_options_def normalizeCoverMedia_def)

lemma normalizeSingleCover_RawBuffer:
  "normalizeSingleCover (RawBuffer b) eng =
     Some \<lparr>cm_data = b, cm_type = ''binary'',
           cm_capacity = Some (case algorithm eng of
               Some alg \<Rightarrow> alg_calculateCapacity alg b
             | None \<Rightarrow> (int (length b) - 4) div 8)\<rparr>"
  unfolding normalizeSingleCover_def floor_rat_div8 by simp






lemma StegEngine_encode_success:
  assumes "enabled (config eng)" "algorithm eng = Some alg"
    "coverIndex eng < length (coverMediaPool eng)"
    "int (length p) \<le> alg_calculateCapacity alg (cm_data (coverMediaPool eng ! coverIndex eng))"
    "alg_encode alg p (cm_data (coverMediaPool eng ! coverIndex eng)) = Inr s"
  shows "fst (StegEngine_encode p eng) =
      Inr \<lparr>er_data = s, er_payloadSize = length p,
           er_coverSize = length (cm_data (coverMediaPool eng ! coverIndex eng)),
           er_algorithm = algorithm_name (config eng), er_success = True, er_error = None\<rparr>
    \<and> coverIndex (snd (StegEngine_encode p eng)) = (coverIndex eng + 1) mod length (coverMediaPool eng)
    \<and> coverMediaPool (snd (StegEngine_encode p eng)) = coverMediaPool eng
    \<and> algorithm (snd (StegEngine_encode p eng)) = algorithm eng
    \<and> config (snd (StegEngine_encode p eng)) = config eng"
proof -
  have pool: "coverMediaPool eng \<noteq> []" using assms(3) by auto
  show ?thesis
    using assms pool
    by (simp add: StegEngine_encode_failure_sites Let_def emit_def)
qed

lemma seeded_fields:
  "alg_encode (seeded sd alg) = alg_encode alg"
  "alg_decode (seeded sd alg) = alg_decode alg"
  "alg_calculateCapacity (seeded sd alg) = alg_calculateCapacity alg"
  by (simp_all add: seeded_def alg_setSeed_def)

lemma two_covers_fields:
  "enabled (config (two_covers alg sd a b))"
  "algorithm (two_covers alg sd a b) = Some (seeded sd alg)"
  "coverMediaPool (two_covers alg sd a b) =
     [\<lparr>cm_data = a, cm_type = ''binary'', cm_capacity = Some (alg_calculateCapacity alg a)\<rparr>,
      \<lparr>cm_data = b, cm_type = ''binary'', cm_capacity = Some (alg_calculateCapacity alg b)\<rparr>]"
  "coverIndex (two_covers alg sd a b) = 0"
  by (simp_all add: two_covers_def StegEngine_new_no_options setAlgorithm_def addCoverMedia_def
      normalizeSingleCover_RawBuffer seeded_def alg_setSeed_def)


lemma updateConfig_coverMedia:
  "p_coverMedia c = Some ms \<Longrightarrow>
   coverIndex (updateConfig c eng) = coverIndex eng
   \<and> coverMediaPool (updateConfig c eng) =
       fold (\<lambda>media pool. case normalizeSingleCover media eng of
               Some normalized \<Rightarrow> pool @ [normalized] | None \<Rightarrow> pool) ms []"
proof -
  have n: "normalizeSingleCover media (eng\<lparr>config := cfg\<rparr>) = normalizeSingleCover media eng"
    for media cfg
    by (cases media) (simp_all add: normalizeSingleCover_def split: option.splits)
  assume "p_coverMedia c = Some ms"
  then show ?thesis
    by (simp add: updateConfig_def Let_def normalizeCoverMedia_def assign_config_def emit_def n
        split: option.splits)
qed

lemma StegEngine_encode_pool:
  assumes "map cm_data pool' = map cm_data (coverMediaPool eng)"
  shows "StegEngine_encode p (eng\<lparr>coverMediaPool := pool'\<rparr>) =
     (fst (StegEngine_encode p eng), (snd (StegEngine_encode p eng))\<lparr>coverMediaPool := pool'\<rparr>)"
proof -
  have len: "length pool' = length (coverMediaPool eng)"
    using assms by (rule map_eq_imp_length_eq)
  have nth: "cm_data (pool' ! i) = cm_data (coverMediaPool eng ! i)" if "i < length (coverMediaPool eng)" for i
    using arg_cong [OF assms, of "\<lambda>xs. xs ! i"] that len by simp
  show ?thesis
  proof (cases "coverIndex eng < length (coverMediaPool eng)")
    case True
    with len nth [of "coverIndex eng"] show ?thesis
      by (simp add: StegEngine_encode_def getNextCover_def handleError_def emit_error_def
          emit_def Let_def split: option.splits sum.splits error_policy.splits)
  next
    case False
    with len show ?thesis
      by (simp add: StegEngine_encode_def getNextCover_def handleError_def emit_error_def
          emit_def Let_def split: option.splits sum.splits error_policy.splits)
  qed
qed

section \<open>Round trip\<close>

text \<open>
  A non-empty payload shorter than \<open>2^31\<close> bytes comes back byte for byte from any
  cover that is large enough.
\<close>

lemma LSBAlgorithm_roundtrip_witness:
  "\<exists>s. LSBAlgorithm_encode [0x42] (replicate 64 0) = Inr s \<and> LSBAlgorithm_decode s = Inr [0x42]"
  using LSBAlgorithm_roundtrip [of "[0x42]" "replicate 64 0"] by simp

text \<open>
  C1. The specification has every payload, the empty one included, come back from
  \<open>decode(encode(p, c))\<close>. The empty payload does not: \<open>encode\<close> accepts it and
  writes the length 0 into the header, and \<open>decode\<close> of that buffer fails on the length
  0 instead of returning the empty payload. The input is the one of the test
  ``should handle empty payload'' (a cover of 64 zero bytes), which expects a result of
  length 0.
\<close>

theorem empty_payload_does_not_round_trip:
  "LSBAlgorithm_encode [] (replicate 64 0) = Inr (replicate 64 0)
   \<and> LSBAlgorithm_decode (replicate 64 0) = Inl InvalidLengthZeroOrNegative"
proof -
  have e: "embed [] (replicate 64 0) = replicate 64 0"
    by (rule nth_equalityI)
      (simp_all add: length_embed nth_embed set_lsb_def length_bit_def)
  have "decodeLengthHeader (embed [] (replicate 64 0)) = 0"
    using decodeLengthHeader_embed [of "[]" "replicate 64 0"] by simp
  then have "LSBAlgorithm_decode (replicate 64 0) = Inl InvalidLengthZeroOrNegative"
    by (simp add: e LSBAlgorithm_decode_def HEADER_SIZE_BITS_def HEADER_SIZE_BYTES_def)
  moreover have "LSBAlgorithm_encode [] (replicate 64 0) = Inr (replicate 64 0)"
    using LSBAlgorithm_encode_embed [of "[]" "replicate 64 0"] by (simp add: e)
  ultimately show ?thesis by simp
qed

section \<open>The capacity of a cover\<close>

text \<open>
  C2. For every cover buffer, \<open>calculateCapacity\<close> is
  \<open>max(0, floor((cover.length - 32) / 8))\<close>; it is 8 for a cover of 100 bytes, 0 for 32
  bytes, 0 for 31 bytes and 1246 for 10000 bytes, whatever the bytes are.
\<close>

theorem calculateCapacity_formula:
  "LSBAlgorithm_calculateCapacity c = max 0 ((int (length c) - 32) div 8)
   \<and> LSBAlgorithm_calculateCapacity (replicate 100 b) = 8
   \<and> LSBAlgorithm_calculateCapacity (replicate 32 b) = 0
   \<and> LSBAlgorithm_calculateCapacity (replicate 31 b) = 0
   \<and> LSBAlgorithm_calculateCapacity (replicate 10000 b) = 1246"
  by (simp add: LSBAlgorithm_calculateCapacity_int)

section \<open>What encode changes\<close>

text \<open>
  C3. Given references to a payload and to a cover that is large enough, \<open>encode\<close>
  leaves every buffer of the store as it was (the cover among them) and returns a new
  buffer, at an address that was not in use, of the length of the cover. The new buffer has
  the bytes of the cover but for bit 0 of the first \<open>(payload length + 4) * 8\<close> bytes: all
  bits above bit 0 are the cover's everywhere, and the bytes after that prefix are the
  cover's. For a payload of one byte and a cover of 128 bytes \<open>0xFF\<close>, bit 0 changes in at
  most 40 bytes and no other bit changes.
\<close>

theorem encode_writes_lsb_of_fresh_copy:
  "(data < length h \<and> cover < length h \<and> (length (h ! data) + 4) * 8 \<le> length (h ! cover)
      \<longrightarrow> (\<exists>out. LSBAlgorithm_encode_st h data cover = (Inr (length h), h @ [out])
            \<and> LSBAlgorithm_encode (h ! data) (h ! cover) = Inr out
            \<and> length out = length (h ! cover)
            \<and> map (drop_bit 1) out = map (drop_bit 1) (h ! cover)
            \<and> drop ((length (h ! data) + 4) * 8) out = drop ((length (h ! data) + 4) * 8) (h ! cover)
            \<and> length (lsb_differences (h ! cover) out) \<le> (length (h ! data) + 4) * 8))
   \<and> (\<exists>out. LSBAlgorithm_encode [b] (replicate 128 0xFF) = Inr out
          \<and> length out = 128
          \<and> length (lsb_differences (replicate 128 0xFF) out) \<le> 40
          \<and> map (drop_bit 1) out = map (drop_bit 1) (replicate 128 0xFF))"
proof -
  have frame: "length (embed p c) = length c
      \<and> map (drop_bit 1) (embed p c) = map (drop_bit 1) c
      \<and> drop ((length p + 4) * 8) (embed p c) = drop ((length p + 4) * 8) c
      \<and> length (lsb_differences c (embed p c)) \<le> (length p + 4) * 8" for p c
  proof -
    have "length (lsb_differences c (embed p c)) \<le> (length p + 4) * 8"
      by (rule lsb_differences_bound) (rule length_embed, rule drop_embed)
    then show ?thesis
      using length_embed [of p c] high_bits_embed [of p c] drop_embed [of p c] by blast
  qed
  have general: "\<exists>out. LSBAlgorithm_encode_st h data cover = (Inr (length h), h @ [out])
            \<and> LSBAlgorithm_encode (h ! data) (h ! cover) = Inr out
            \<and> length out = length (h ! cover)
            \<and> map (drop_bit 1) out = map (drop_bit 1) (h ! cover)
            \<and> drop ((length (h ! data) + 4) * 8) out = drop ((length (h ! data) + 4) * 8) (h ! cover)
            \<and> length (lsb_differences (h ! cover) out) \<le> (length (h ! data) + 4) * 8"
    if "data < length h" "cover < length h" "(length (h ! data) + 4) * 8 \<le> length (h ! cover)"
    using that frame [of "h ! data" "h ! cover"]
    by (intro exI [of _ "embed (h ! data) (h ! cover)"])
      (simp add: LSBAlgorithm_encode_st_eq LSBAlgorithm_encode_embed)
  have particular: "\<exists>out. LSBAlgorithm_encode [b] (replicate 128 0xFF) = Inr out
          \<and> length out = 128
          \<and> length (lsb_differences (replicate 128 0xFF) out) \<le> 40
          \<and> map (drop_bit 1) out = map (drop_bit 1) (replicate 128 0xFF)"
    using frame [of "[b]" "replicate 128 0xFF"]
    by (intro exI [of _ "embed [b] (replicate 128 0xFF)"])
      (simp add: LSBAlgorithm_encode_embed)
  from general particular show ?thesis by blast
qed

theorem encode_writes_lsb_of_fresh_copy_witness:
  "(0::nat) < length [[0x78], replicate 128 0xFF] \<and> (1::nat) < length [[0x78], replicate 128 (0xFF :: byte)]
   \<and> (length ([[0x78], replicate 128 0xFF] ! 0) + 4) * 8 \<le> length ([[0x78], replicate 128 (0xFF :: byte)] ! 1)
   \<and> (\<exists>out. LSBAlgorithm_encode_st [[0x78], replicate 128 0xFF] 0 1
                = (Inr 2, [[0x78], replicate 128 0xFF, out])
          \<and> LSBAlgorithm_encode [0x78] (replicate 128 0xFF) = Inr out
          \<and> length out = 128
          \<and> map (drop_bit 1) out = map (drop_bit 1) (replicate 128 0xFF)
          \<and> drop 40 out = replicate 88 0xFF
          \<and> length (lsb_differences (replicate 128 0xFF) out) \<le> 40)"
  using encode_writes_lsb_of_fresh_copy [of 0 "[[0x78], replicate 128 0xFF]" 1 0]
  by (simp add: numeral_2_eq_2)

section \<open>Decode failures\<close>

text \<open>
  With an \<open>'error'\<close> listener registered, a decode failure of the codec comes back as a
  failure result with empty data, whatever \<open>onError\<close> is (lemmas
  \<open>StegEngine_decode_failure\<close> and \<open>StegEngine_decode_ignores_onError\<close>), and the codec
  fails as lemma \<open>LSBAlgorithm_decode_cases\<close> says.

  C4. The specification has every decode failure of an enabled engine surfaced as a
  failure result and never thrown. On an engine made with \<open>{}\<close> and given the LSB codec,
  with no listener registered, decoding a buffer of 31 bytes returns no result: the codec
  fails (the buffer is shorter than the header), the engine builds the failure result and
  then emits \<open>'error'\<close>, and the emitter throws. With a listener registered the same call
  returns the failure result.
\<close>

theorem decode_failure_thrown_without_error_listener:
  "fst (StegEngine_decode (replicate 31 0) (setAlgorithm LSBAlgorithm (StegEngine_new ''seed'' no_options)))
     = Inl (UnhandledErrorEvent (DecodeErrorEvent DataTooSmall))
   \<and> fst (StegEngine_decode (replicate 31 0)
          (on_error (setAlgorithm LSBAlgorithm (StegEngine_new ''seed'' no_options))))
     = Inr \<lparr>dr_data = [], dr_payloadSize = 0, dr_algorithm = ''lsb'', dr_success = False,
            dr_error = Some (DecodingFailed DataTooSmall)\<rparr>"
  by (simp add: StegEngine_decode_def StegEngine_new_no_options setAlgorithm_def on_error_def
      LSBAlgorithm_def alg_setSeed_def LSBAlgorithm_decode_too_small emit_error_def emit_def)

section \<open>The error policy of encode\<close>

text \<open>
  With an \<open>'error'\<close> listener registered, every failure of \<open>encode\<close> goes through
  \<open>handleError\<close> and comes out as \<open>onError\<close> says (lemmas
  \<open>StegEngine_encode_failure_sites\<close> and \<open>handleError_policy\<close>).

  C5. The specification has the policy decide the result at every failure site of
  \<open>encode\<close>: \<open>passthrough\<close> returns a failure result carrying the payload, \<open>drop\<close>
  one with empty data, and only \<open>throw\<close> raises. On an engine
  made with \<open>{}\<close> (policy \<open>passthrough\<close>) or with \<open>{onError: 'drop'}\<close>, given the LSB
  codec and no cover, with no listener registered, \<open>encode\<close> of the four bytes of
  \<open>'test'\<close> returns no result: \<open>handleError\<close> emits \<open>'error'\<close> before it looks at
  the policy, and the emitter throws. With a listener registered the call returns the
  result of \<open>passthrough\<close>.
\<close>

theorem encode_failure_thrown_without_error_listener:
  "fst (StegEngine_encode [0x74, 0x65, 0x73, 0x74]
          (setAlgorithm LSBAlgorithm (StegEngine_new ''seed'' no_options)))
     = Inl (UnhandledErrorEvent (EncodeErrorEvent NoCoverMediaAvailable))
   \<and> fst (StegEngine_encode [0x74, 0x65, 0x73, 0x74]
          (setAlgorithm LSBAlgorithm (StegEngine_new ''seed'' (no_options\<lparr>p_onError := Some Drop\<rparr>))))
     = Inl (UnhandledErrorEvent (EncodeErrorEvent NoCoverMediaAvailable))
   \<and> fst (StegEngine_encode [0x74, 0x65, 0x73, 0x74]
          (on_error (setAlgorithm LSBAlgorithm (StegEngine_new ''seed'' no_options))))
     = Inr \<lparr>er_data = [0x74, 0x65, 0x73, 0x74], er_payloadSize = 4, er_coverSize = 4,
            er_algorithm = ''lsb'', er_success = False, er_error = Some NoCoverMediaAvailable\<rparr>"
  by (simp add: StegEngine_encode_def StegEngine_new_def no_options_def normalizeCoverMedia_def
      setAlgorithm_def on_error_def getNextCover_def handleError_def emit_error_def emit_def
      LSBAlgorithm_def alg_setSeed_def)

section \<open>Round-robin selection\<close>




section \<open>The disabled engine\<close>

text \<open>
  C7. When \<open>enabled\<close> is false, \<open>encode\<close> returns success with the payload as data and
  \<open>decode\<close> returns success with its input as data; the engine is left as it was (no cover
  taken, no notification), and this is so whatever codec is set, or none.
\<close>

theorem disabled_passthrough:
  "\<not> enabled (config eng) \<Longrightarrow>
   StegEngine_encode p (eng\<lparr>algorithm := a\<rparr>) =
     (Inr \<lparr>er_data = p, er_payloadSize = length p, er_coverSize = length p,
           er_algorithm = algorithm_name (config eng), er_success = True, er_error = None\<rparr>,
      eng\<lparr>algorithm := a\<rparr>)
   \<and> StegEngine_decode p (eng\<lparr>algorithm := a\<rparr>) =
     (Inr \<lparr>dr_data = p, dr_payloadSize = length p,
           dr_algorithm = algorithm_name (config eng), dr_success = True, dr_error = None\<rparr>,
      eng\<lparr>algorithm := a\<rparr>)"
  by (simp add: StegEngine_encode_def StegEngine_decode_def)

theorem disabled_passthrough_witness:
  "(let eng = setAlgorithm LSBAlgorithm
                (StegEngine_new ''seed'' (no_options\<lparr>p_enabled := Some False\<rparr>))
    in \<not> enabled (config eng)
       \<and> StegEngine_encode [0x6E, 0x6F] eng =
            (Inr \<lparr>er_data = [0x6E, 0x6F], er_payloadSize = 2, er_coverSize = 2,
                  er_algorithm = ''lsb'', er_success = True, er_error = None\<rparr>, eng)
       \<and> StegEngine_decode [0x6E, 0x6F] eng =
            (Inr \<lparr>dr_data = [0x6E, 0x6F], dr_payloadSize = 2, dr_algorithm = ''lsb'',
                  dr_success = True, dr_error = None\<rparr>, eng))"
proof -
  define eng :: "lsb_error StegEngine"
    where "eng = StegEngine_new ''seed'' (no_options\<lparr>p_enabled := Some False\<rparr>)"
  have h: "\<not> enabled (config eng)" "algorithm_name (config eng) = ''lsb''"
    by (simp_all add: eng_def StegEngine_new_def no_options_def normalizeCoverMedia_def)
  have s: "setAlgorithm LSBAlgorithm eng = eng\<lparr>algorithm := Some (seeded (seed (config eng)) LSBAlgorithm)\<rparr>"
    by (simp add: setAlgorithm_def seeded_def)
  from disabled_passthrough [OF h(1), of "[0x6E, 0x6F]" "Some (seeded (seed (config eng)) LSBAlgorithm)"] h
  show ?thesis
    unfolding Let_def eng_def [symmetric] s by simp
qed

section \<open>Replacing the cover media\<close>

text \<open>
  \<open>updateConfig\<close> with a \<open>coverMedia\<close> makes the pool anew from the media given and
  leaves the cursor where it was (lemma \<open>updateConfig_coverMedia\<close>).

  C8. The specification has \<open>updateConfig\<close> with a replacement \<open>coverMedia\<close> rebuild
  the pool and reset the cursor to 0. On an engine with the LSB codec and two covers, after one \<open>encode\<close> the
  cursor is 1; \<open>updateConfig\<close> with a single new cover leaves the pool with that cover
  alone and the cursor at 1, outside the pool. The next \<open>getNextCover\<close> finds no cover,
  and \<open>encode\<close> fails with ``No cover media available'' on a pool that has one.
\<close>

theorem stale_cursor_after_updateConfig:
  "(let e0 = two_covers LSBAlgorithm ''seed'' (replicate 40 0xAA) (replicate 40 0xBB);
        e1 = snd (StegEngine_encode [0x78] e0);
        e2 = updateConfig (no_options\<lparr>p_coverMedia := Some [RawBuffer (replicate 40 0xCC)]\<rparr>) e1
    in coverIndex e1 = 1
       \<and> map cm_data (coverMediaPool e2) = [replicate 40 0xCC]
       \<and> coverIndex e2 = 1
       \<and> fst (getNextCover e2) = None
       \<and> fst (StegEngine_encode [0x78] (on_error e2)) =
           Inr \<lparr>er_data = [0x78], er_payloadSize = 1, er_coverSize = 1, er_algorithm = ''lsb'',
                er_success = False, er_error = Some NoCoverMediaAvailable\<rparr>)"
proof -
  define e0 :: "lsb_error StegEngine"
    where "e0 = two_covers LSBAlgorithm ''seed'' (replicate 40 0xAA) (replicate 40 0xBB)"
  define e1 where "e1 = snd (StegEngine_encode [0x78] e0)"
  define e2 where "e2 = updateConfig (no_options\<lparr>p_coverMedia := Some [RawBuffer (replicate 40 0xCC)]\<rparr>) e1"
  have e0: "enabled (config e0)" "algorithm e0 = Some (seeded ''seed'' LSBAlgorithm)"
    "coverIndex e0 = 0" "length (coverMediaPool e0) = 2"
    "cm_data (coverMediaPool e0 ! 0) = replicate 40 0xAA"
    by (simp_all add: e0_def two_covers_fields)
  have "coverIndex e0 < length (coverMediaPool e0)"
    "int (length [0x78 :: byte]) \<le> alg_calculateCapacity (seeded ''seed'' LSBAlgorithm)
        (cm_data (coverMediaPool e0 ! coverIndex e0))"
    "alg_encode (seeded ''seed'' LSBAlgorithm) [0x78] (cm_data (coverMediaPool e0 ! coverIndex e0))
       = Inr (embed [0x78] (replicate 40 0xAA))"
    using e0 by (simp_all add: seeded_fields LSBAlgorithm_def LSBAlgorithm_calculateCapacity_int
        LSBAlgorithm_encode_embed)
  from StegEngine_encode_success [OF e0(1) e0(2) this]
  have e1: "coverIndex e1 = 1" "algorithm e1 = Some (seeded ''seed'' LSBAlgorithm)"
    "config e1 = config e0"
    using e0 unfolding e1_def by simp_all
  have cfg: "config e0 = \<lparr>enabled = True, algorithm_name = ''lsb'', coverMedia = [], seed = ''seed'',
                onError = Passthrough, debug = False\<rparr>"
    by (simp add: e0_def two_covers_def StegEngine_new_no_options setAlgorithm_def addCoverMedia_def
        normalizeSingleCover_RawBuffer)
  have e2: "coverIndex e2 = 1" "map cm_data (coverMediaPool e2) = [replicate 40 0xCC]"
    "algorithm e2 = Some (seeded ''seed'' LSBAlgorithm)"
    "config e2 = \<lparr>enabled = True, algorithm_name = ''lsb'',
        coverMedia = [RawBuffer (replicate 40 0xCC)], seed = ''seed'',
        onError = Passthrough, debug = False\<rparr>"
    using e1 cfg unfolding e2_def
    by (simp_all add: updateConfig_def assign_config_def no_options_def normalizeCoverMedia_def
        normalizeSingleCover_RawBuffer emit_def Let_def)
  then have len: "length (coverMediaPool e2) = 1"
    using length_map [of cm_data "coverMediaPool e2"] by simp
  have g: "fst (getNextCover e2) = None"
    using e2(1) len by (simp add: getNextCover_def)
  have enc: "fst (StegEngine_encode [0x78] (on_error e2)) =
           Inr \<lparr>er_data = [0x78], er_payloadSize = 1, er_coverSize = 1, er_algorithm = ''lsb'',
                er_success = False, er_error = Some NoCoverMediaAvailable\<rparr>"
    using e2 len
    by (simp add: StegEngine_encode_def getNextCover_def on_error_def handleError_def
        emit_error_def emit_def)
  from e1(1) e2(1,2) g enc show ?thesis
    unfolding e0_def e1_def e2_def Let_def by blast
qed

section \<open>Stored capacities\<close>

text \<open>
  C9. The specification has the capacity of every cover in the pool at least 0, also when
  no codec is set and for covers smaller than the header. A buffer of three bytes added to
  an engine that has no codec gets the capacity \<open>floor((3 - 4) / 8) = -1\<close>, and the
  pool statistics sum to \<open>-1\<close>; the LSB codec gives the same buffer the capacity 0.
\<close>

theorem heuristic_capacity_negative:
  "map cm_capacity (coverMediaPool (addCoverMedia (RawBuffer [0, 0, 0])
       (StegEngine_new ''seed'' no_options :: lsb_error StegEngine))) = [Some (- 1)]
   \<and> totalCapacity (getPoolStats (addCoverMedia (RawBuffer [0, 0, 0])
       (StegEngine_new ''seed'' no_options :: lsb_error StegEngine))) = - 1
   \<and> LSBAlgorithm_calculateCapacity [0, 0, 0] = 0"
  by (simp add: StegEngine_new_no_options addCoverMedia_def normalizeSingleCover_RawBuffer
      getPoolStats_def LSBAlgorithm_calculateCapacity_int Let_def)

section \<open>The capacity that encode checks\<close>

text \<open>
  C10. \<open>encode\<close> checks the payload against the capacity that the codec computes from
  the bytes of the selected cover, not against the capacity stored with the cover. Replacing
  the pool by one with the same bytes in the same order, whatever the stored capacities,
  changes neither the outcome of \<open>encode\<close> nor the state it leaves; the call fails as too
  large when the payload is longer than the computed capacity and gives the codec's
  encoding when it is not; the stored capacity is what \<open>getPoolStats\<close> sums.
\<close>

theorem encode_ignores_stored_capacity:
  "(map cm_data pool' = map cm_data (coverMediaPool (eng :: 'e StegEngine)) \<longrightarrow>
      fst (StegEngine_encode p (eng\<lparr>coverMediaPool := pool'\<rparr>)) = fst (StegEngine_encode p eng)
      \<and> snd (StegEngine_encode p (eng\<lparr>coverMediaPool := pool'\<rparr>))
          = (snd (StegEngine_encode p eng))\<lparr>coverMediaPool := pool'\<rparr>)
   \<and> (enabled (config eng) \<and> algorithm eng = Some (alg :: 'e StegAlgorithm)
        \<and> coverIndex eng < length (coverMediaPool eng)
        \<and> int (length q) > alg_calculateCapacity alg (cm_data (coverMediaPool eng ! coverIndex eng)) \<longrightarrow>
      StegEngine_encode q eng =
        handleError (DataTooLarge (length q)
            (alg_calculateCapacity alg (cm_data (coverMediaPool eng ! coverIndex eng)))) q
          (eng\<lparr>coverIndex := (coverIndex eng + 1) mod length (coverMediaPool eng)\<rparr>))
   \<and> (enabled (config eng) \<and> algorithm eng = Some alg
        \<and> coverIndex eng < length (coverMediaPool eng)
        \<and> int (length p) \<le> alg_calculateCapacity alg (cm_data (coverMediaPool eng ! coverIndex eng))
        \<and> alg_encode alg p (cm_data (coverMediaPool eng ! coverIndex eng)) = Inr s \<longrightarrow>
      fst (StegEngine_encode p eng) =
        Inr \<lparr>er_data = s, er_payloadSize = length p,
             er_coverSize = length (cm_data (coverMediaPool eng ! coverIndex eng)),
             er_algorithm = algorithm_name (config eng), er_success = True, er_error = None\<rparr>)
   \<and> totalCapacity (getPoolStats (eng\<lparr>coverMediaPool := [c\<lparr>cm_capacity := Some k\<rparr>]\<rparr>)) = k"
proof (intro conjI impI)
  assume "map cm_data pool' = map cm_data (coverMediaPool eng)"
  then show "fst (StegEngine_encode p (eng\<lparr>coverMediaPool := pool'\<rparr>)) = fst (StegEngine_encode p eng)"
    by (simp add: StegEngine_encode_pool)
next
  assume "map cm_data pool' = map cm_data (coverMediaPool eng)"
  then show "snd (StegEngine_encode p (eng\<lparr>coverMediaPool := pool'\<rparr>))
          = (snd (StegEngine_encode p eng))\<lparr>coverMediaPool := pool'\<rparr>"
    by (simp add: StegEngine_encode_pool)
next
  assume h: "enabled (config eng) \<and> algorithm eng = Some alg
        \<and> coverIndex eng < length (coverMediaPool eng)
        \<and> int (length q) > alg_calculateCapacity alg (cm_data (coverMediaPool eng ! coverIndex eng))"
  then have "coverMediaPool eng \<noteq> []" by auto
  with h show "StegEngine_encode q eng =
        handleError (DataTooLarge (length q)
            (alg_calculateCapacity alg (cm_data (coverMediaPool eng ! coverIndex eng)))) q
          (eng\<lparr>coverIndex := (coverIndex eng + 1) mod length (coverMediaPool eng)\<rparr>)"
    by (simp add: StegEngine_encode_failure_sites Let_def)
next
  assume "enabled (config eng) \<and> algorithm eng = Some alg
        \<and> coverIndex eng < length (coverMediaPool eng)
        \<and> int (length p) \<le> alg_calculateCapacity alg (cm_data (coverMediaPool eng ! coverIndex eng))
        \<and> alg_encode alg p (cm_data (coverMediaPool eng ! coverIndex eng)) = Inr s"
  then show "fst (StegEngine_encode p eng) =
        Inr \<lparr>er_data = s, er_payloadSize = length p,
             er_coverSize = length (cm_data (coverMediaPool eng ! coverIndex eng)),
             er_algorithm = algorithm_name (config eng), er_success = True, er_error = None\<rparr>"
    using StegEngine_encode_success [of eng alg p s] by simp
next
  show "totalCapacity (getPoolStats (eng\<lparr>coverMediaPool := [c\<lparr>cm_capacity := Some k\<rparr>]\<rparr>)) = k"
    by (simp add: getPoolStats_def Let_def)
qed

theorem encode_ignores_stored_capacity_witness:
  "(let a = replicate 40 0xAA;
        eng = addCoverMedia (MediaObject \<lparr>cm_data = a, cm_type = ''test'', cm_capacity = Some 0\<rparr>)
                (setAlgorithm LSBAlgorithm (StegEngine_new ''seed'' no_options));
        pool' = [\<lparr>cm_data = a, cm_type = ''test'', cm_capacity = Some 1000\<rparr>];
        alg = seeded ''seed'' LSBAlgorithm;
        p = [0x78]; q = [0x78, 0x79]
    in map cm_data pool' = map cm_data (coverMediaPool eng)
       \<and> enabled (config eng) \<and> algorithm eng = Some alg
       \<and> coverIndex eng < length (coverMediaPool eng)
       \<and> map cm_capacity (coverMediaPool eng) = [Some 0]
       \<and> alg_calculateCapacity alg (cm_data (coverMediaPool eng ! coverIndex eng)) = 1
       \<and> alg_encode alg p (cm_data (coverMediaPool eng ! coverIndex eng)) = Inr (embed p a)
       \<and> fst (StegEngine_encode p (eng\<lparr>coverMediaPool := pool'\<rparr>)) = fst (StegEngine_encode p eng)
       \<and> StegEngine_encode q eng = handleError (DataTooLarge 2 1) q (eng\<lparr>coverIndex := 0\<rparr>)
       \<and> fst (StegEngine_encode p eng) =
            Inr \<lparr>er_data = embed p a, er_payloadSize = 1, er_coverSize = 40,
                 er_algorithm = ''lsb'', er_success = True, er_error = None\<rparr>)"
proof -
  define a :: buffer where "a = replicate 40 0xAA"
  define eng :: "lsb_error StegEngine" where
    "eng = addCoverMedia (MediaObject \<lparr>cm_data = a, cm_type = ''test'', cm_capacity = Some 0\<rparr>)
                (setAlgorithm LSBAlgorithm (StegEngine_new ''seed'' no_options))"
  define pool' where "pool' = [\<lparr>cm_data = a, cm_type = ''test'', cm_capacity = Some (1000 :: int)\<rparr>]"
  define alg where "alg = seeded ''seed'' LSBAlgorithm"
  define p :: buffer where "p = [0x78]"
  define q :: buffer where "q = [0x78, 0x79]"
  have e: "coverMediaPool eng = [\<lparr>cm_data = a, cm_type = ''test'', cm_capacity = Some 0\<rparr>]"
      "enabled (config eng)" "algorithm eng = Some alg" "coverIndex eng = 0"
      "algorithm_name (config eng) = ''lsb''"
    by (simp_all add: eng_def alg_def StegEngine_new_no_options setAlgorithm_def addCoverMedia_def
        normalizeSingleCover_def seeded_def)
  have h1: "map cm_data pool' = map cm_data (coverMediaPool eng)"
    by (simp add: e pool'_def)
  have h2: "coverIndex eng < length (coverMediaPool eng)" by (simp add: e)
  have cap: "alg_calculateCapacity alg (cm_data (coverMediaPool eng ! coverIndex eng)) = 1"
    by (simp add: e alg_def seeded_fields LSBAlgorithm_def LSBAlgorithm_calculateCapacity_int a_def)
  have enc: "alg_encode alg p (cm_data (coverMediaPool eng ! coverIndex eng)) = Inr (embed p a)"
    by (simp add: e alg_def seeded_fields LSBAlgorithm_def LSBAlgorithm_encode_embed a_def p_def)
  note t = encode_ignores_stored_capacity [of pool' eng p alg q "embed p a"]
  from t h1 have c1: "fst (StegEngine_encode p (eng\<lparr>coverMediaPool := pool'\<rparr>)) = fst (StegEngine_encode p eng)"
    by blast
  from t e(2,3) h2 cap have c2: "StegEngine_encode q eng = handleError (DataTooLarge 2 1) q (eng\<lparr>coverIndex := 0\<rparr>)"
    by (simp add: q_def e numeral_2_eq_2)
  from t e(2,3) h2 cap enc have c3: "fst (StegEngine_encode p eng) =
            Inr \<lparr>er_data = embed p a, er_payloadSize = 1, er_coverSize = 40,
                 er_algorithm = ''lsb'', er_success = True, er_error = None\<rparr>"
    by (simp add: p_def e a_def)
  have caps: "map cm_capacity (coverMediaPool eng) = [Some 0]" by (simp add: e)
  from h1 e(2,3) h2 caps cap enc c1 c2 c3 show ?thesis
    unfolding Let_def a_def [symmetric] eng_def [symmetric] pool'_def [symmetric]
      alg_def [symmetric] p_def [symmetric] q_def [symmetric]
    by blast
qed

end
